theory Spec2Isabelle
  imports Main "HOL-Library.Word"
begin

section \<open>JavaScript strings\<close>

text \<open>
  A JavaScript string is a sequence of UTF-16 code units; \<open>s.length\<close> counts code units
  and \<open>s[i]\<close> reads one. The emulator's output is decoded with \<open>setEncoding('utf8')\<close>
  before any handler sees it, so every handler below works on such strings.
  \<open>js\<close> writes an ASCII literal as a JavaScript string.
\<close>

type_synonym jschar = "16 word"
type_synonym jsstring = "jschar list"

definition js :: "string \<Rightarrow> jsstring" where
  "js s = map (\<lambda>c. of_nat (of_char c)) s"

definition LF :: jschar where "LF = 0x0A"
definition CR :: jschar where "CR = 0x0D"
definition ESC :: jschar where "ESC = 0x1B"
definition LBRACKET :: jschar where "LBRACKET = 0x5B"
definition LBRACE :: jschar where "LBRACE = 0x7B"
definition SEMI :: jschar where "SEMI = 0x3B"
definition CH_m :: jschar where "CH_m = 0x6D"
definition AMP :: jschar where "AMP = 0x26"
definition LT :: jschar where "LT = 0x3C"
definition GT :: jschar where "GT = 0x3E"
definition DQUOTE :: jschar where "DQUOTE = 0x22"
definition PLUS :: jschar where "PLUS = 0x2B"
definition MINUS :: jschar where "MINUS = 0x2D"

text \<open>
  The white space of ECMAScript (WhiteSpace and LineTerminator), which both
  \<open>String.prototype.trim\<close> and the prefix skipping of \<open>parseInt\<close> use.
\<close>

definition isWhiteSpace :: "jschar \<Rightarrow> bool" where
  "isWhiteSpace c \<longleftrightarrow>
     c = 0x09 \<or> c = 0x0A \<or> c = 0x0B \<or> c = 0x0C \<or> c = 0x0D \<or> c = 0x20 \<or> c = 0xA0 \<or>
     c = 0x1680 \<or> (0x2000 \<le> c \<and> c \<le> 0x200A) \<or> c = 0x2028 \<or> c = 0x2029 \<or>
     c = 0x202F \<or> c = 0x205F \<or> c = 0x3000 \<or> c = 0xFEFF"

definition trim :: "jsstring \<Rightarrow> jsstring" where
  "trim s = rev (dropWhile isWhiteSpace (rev (dropWhile isWhiteSpace s)))"

text \<open>\<open>s.startsWith(p)\<close> and \<open>s.includes(p)\<close>.\<close>

definition startsWith :: "jsstring \<Rightarrow> jsstring \<Rightarrow> bool" where
  "startsWith s p \<longleftrightarrow> take (length p) s = p"

fun includes_str :: "jsstring \<Rightarrow> jsstring \<Rightarrow> bool" where
  "includes_str [] p = (p = [])"
| "includes_str (c # cs) p = (startsWith (c # cs) p \<or> includes_str cs p)"

text \<open>\<open>s.split(sep)\<close> for a separator of one code unit: always at least one segment.\<close>

fun split_on :: "jschar \<Rightarrow> jsstring \<Rightarrow> jsstring list" where
  "split_on sep [] = [[]]"
| "split_on sep (c # cs) =
     (if c = sep then [] # split_on sep cs
      else (case split_on sep cs of
              [] \<Rightarrow> [[c]]
            | l # ls \<Rightarrow> (c # l) # ls))"

text \<open>\<open>xs.join(sep)\<close>.\<close>

fun join :: "jsstring \<Rightarrow> jsstring list \<Rightarrow> jsstring" where
  "join sep [] = []"
| "join sep [x] = x"
| "join sep (x # y # ys) = x @ sep @ join sep (y # ys)"

text \<open>
  \<open>parseInt(s, 10)\<close>: leading white space is skipped, one sign is read, then the longest
  run of decimal digits; no digit at all gives \<open>NaN\<close>, here \<open>None\<close>. The JavaScript
  result is a double. The renderer only compares it with the constants 0 to 107, and a
  digit run denotes such a constant exactly when its integer value is that constant
  (\<open>-0 === 0\<close> holds in JavaScript as well), so the value is kept as an integer.
\<close>

definition isDigit :: "jschar \<Rightarrow> bool" where
  "isDigit c \<longleftrightarrow> 0x30 \<le> c \<and> c \<le> 0x39"

definition digitsValue :: "jsstring \<Rightarrow> int" where
  "digitsValue ds = foldl (\<lambda>acc d. 10 * acc + (uint d - 48)) 0 ds"

definition parseInt10 :: "jsstring \<Rightarrow> int option" where
  "parseInt10 s =
     (let t = dropWhile isWhiteSpace s;
          neg = (t \<noteq> [] \<and> hd t = MINUS);
          u = (if t \<noteq> [] \<and> (hd t = MINUS \<or> hd t = PLUS) then tl t else t);
          ds = takeWhile isDigit u
      in if ds = [] then None
         else Some (if neg then - digitsValue ds else digitsValue ds))"

section \<open>The ANSI renderer (ansi-to-html)\<close>

subsection \<open>htmlEscape and the colour table\<close>

definition htmlEscapeChar :: "jschar \<Rightarrow> jsstring" where
  "htmlEscapeChar c =
     (if c = AMP then js ''&amp;''
      else if c = LT then js ''&lt;''
      else if c = GT then js ''&gt;''
      else if c = DQUOTE then js ''&quot;''
      else [c])"

definition htmlEscape :: "jsstring \<Rightarrow> jsstring" where
  "htmlEscape s = concat (map htmlEscapeChar s)"

definition CSS_COLORS :: "int \<Rightarrow> jsstring option" where
  "CSS_COLORS code =
     (if code = 30 then Some (js ''black'')
      else if code = 31 then Some (js ''red'')
      else if code = 32 then Some (js ''green'')
      else if code = 33 then Some (js ''yellow'')
      else if code = 34 then Some (js ''blue'')
      else if code = 35 then Some (js ''magenta'')
      else if code = 36 then Some (js ''cyan'')
      else if code = 37 then Some (js ''white'')
      else if code = 90 then Some (js ''#808080'')
      else if code = 91 then Some (js ''#ff5555'')
      else if code = 92 then Some (js ''#55ff55'')
      else if code = 93 then Some (js ''#ffff55'')
      else if code = 94 then Some (js ''#5555ff'')
      else if code = 95 then Some (js ''#ff55ff'')
      else if code = 96 then Some (js ''#55ffff'')
      else if code = 97 then Some (js ''#ffffff'')
      else None)"

subsection \<open>sgrToStyle and styleToSpanOpen\<close>

record style =
  color :: "jsstring option"
  background :: "jsstring option"
  bold :: bool
  underline :: bool
  inverse :: bool

definition default_style :: style where
  "default_style =
     \<lparr>color = None, background = None, bold = False, underline = False, inverse = False\<rparr>"

text \<open>One iteration of the \<open>for (const code of sgrList)\<close> loop; \<open>None\<close> is \<open>NaN\<close>.\<close>

definition sgrStep :: "style \<Rightarrow> int option \<Rightarrow> style" where
  "sgrStep cur oc =
     (case oc of
        None \<Rightarrow> cur
      | Some code \<Rightarrow>
          if code = 0 then
            cur\<lparr>color := None, background := None, bold := False, underline := False,
                inverse := False\<rparr>
          else if code = 1 then cur\<lparr>bold := True\<rparr>
          else if code = 4 then cur\<lparr>underline := True\<rparr>
          else if code = 7 then cur\<lparr>inverse := True\<rparr>
          else if code = 21 \<or> code = 22 then cur\<lparr>bold := False\<rparr>
          else if code = 24 then cur\<lparr>underline := False\<rparr>
          else if (30 \<le> code \<and> code \<le> 37) \<or> (90 \<le> code \<and> code \<le> 97) then
            cur\<lparr>color := CSS_COLORS code\<rparr>
          else if (40 \<le> code \<and> code \<le> 47) \<or> (100 \<le> code \<and> code \<le> 107) then
            cur\<lparr>background := CSS_COLORS (if 100 \<le> code then code - 60 else code - 10)\<rparr>
          else cur)"

definition sgrToStyle :: "int option list \<Rightarrow> style \<Rightarrow> style" where
  "sgrToStyle sgrList cur = foldl sgrStep cur sgrList"

text \<open>The truthiness of a value that is \<open>null\<close> or a string.\<close>

definition truthy :: "jsstring option \<Rightarrow> bool" where
  "truthy v \<longleftrightarrow> (case v of None \<Rightarrow> False | Some s \<Rightarrow> s \<noteq> [])"

definition styleToSpanOpen :: "style \<Rightarrow> jsstring" where
  \<open>styleToSpanOpen cur =
     (let styles =
            (if inverse cur then
               (if truthy (color cur) then [js ''background:'' @ the (color cur)] else []) @
               (if truthy (background cur) then [js ''color:'' @ the (background cur)] else [])
             else
               (if truthy (color cur) then [js ''color:'' @ the (color cur)] else []) @
               (if truthy (background cur) then [js ''background:'' @ the (background cur)]
                else [])) @
            (if bold cur then [js ''font-weight:700''] else []) @
            (if underline cur then [js ''text-decoration:underline''] else [])
      in if styles \<noteq> [] then js ''<span style="'' @ join [SEMI] styles @ js ''">'' else [])\<close>

subsection \<open>convertAnsiToHtml\<close>

text \<open>
  \<open>out.lastIndexOf("\n")\<close> followed by \<open>out = ""\<close> or \<open>out.slice(0, lastNewline + 1)\<close>:
  what is kept of the render buffer at a carriage return.
\<close>

definition cutToLastNewline :: "jsstring \<Rightarrow> jsstring" where
  "cutToLastNewline out =
     (if LF \<notin> set out then []
      else rev (dropWhile (\<lambda>c. c \<noteq> LF) (rev out)))"

text \<open>
  The parameters of a control sequence:
  \<open>params.length ? params.split(";").map(s => parseInt(s || "0", 10)) : [0]\<close>.
\<close>

definition parseParams :: "jsstring \<Rightarrow> int option list" where
  "parseParams params =
     (if params \<noteq> [] then map (\<lambda>s. parseInt10 (if s \<noteq> [] then s else js ''0''))
                               (split_on SEMI params)
      else [Some 0])"

text \<open>
  The \<open>while (i < input.length)\<close> loop. The first argument is the unread part of the
  input, \<open>input.slice(i)\<close>; the others are the loop's variables \<open>cur\<close>, \<open>openSpan\<close> and
  \<open>out\<close>. The inner loop \<open>while (j < input.length && input[j] !== "m")\<close> collects
  \<open>params\<close> as the longest prefix without \<open>m\<close> of what follows \<open>ESC [\<close>; when it stops
  at the end of the input, \<open>input[j]\<close> is \<open>undefined\<close> and the sequence is malformed.
  The result is the pair of \<open>out\<close> and \<open>openSpan\<close> when the loop ends.
\<close>

function ansiLoop :: "jsstring \<Rightarrow> style \<Rightarrow> jsstring \<Rightarrow> jsstring \<Rightarrow> jsstring \<times> jsstring" where
  "ansiLoop [] cur openSpan out = (out, openSpan)"
| "ansiLoop (ch # rest) cur openSpan out =
     (if ch = ESC \<and> rest \<noteq> [] \<and> hd rest = LBRACKET then
        (let params = takeWhile (\<lambda>c. c \<noteq> CH_m) (tl rest);
             after = dropWhile (\<lambda>c. c \<noteq> CH_m) (tl rest)
         in if after = [] then ansiLoop rest cur openSpan (out @ htmlEscape [ch])
            else
              (let nums = parseParams params;
                   out1 = (if openSpan \<noteq> [] then out @ js ''</span>'' else out);
                   cur' = sgrToStyle nums cur;
                   spanOpen = styleToSpanOpen cur'
               in if spanOpen \<noteq> [] then ansiLoop (tl after) cur' spanOpen (out1 @ spanOpen)
                  else ansiLoop (tl after) cur' [] out1))
      else if ch = CR then ansiLoop rest cur openSpan (cutToLastNewline out)
      else if ch = LF then ansiLoop rest cur openSpan (out @ [LF])
      else ansiLoop rest cur openSpan (out @ htmlEscape [ch]))"
  by pat_completeness auto
termination
proof (relation "measure (\<lambda>(input, cur, openSpan, out). length input)")
  show "wf (measure (\<lambda>(input, cur, openSpan, out). length input))" by simp
next
  fix ch :: jschar and rest :: jsstring and cur :: style and openSpan out :: jsstring
    and params after :: jsstring and nums out1 cur' spanOpen
  assume "after = dropWhile (\<lambda>c. c \<noteq> CH_m) (tl rest)"
  then have "length (tl after) \<le> length rest"
    by (simp add: le_trans [OF length_dropWhile_le] le_diff_conv)
  then show "((tl after, cur', spanOpen, out1 @ spanOpen), (ch # rest, cur, openSpan, out))
      \<in> measure (\<lambda>(input, cur, openSpan, out). length input)"
    and "((tl after, cur', [], out1), (ch # rest, cur, openSpan, out))
      \<in> measure (\<lambda>(input, cur, openSpan, out). length input)"
    by simp_all
qed simp_all

text \<open>\<open>out.replace(/\n/g, "<br>")\<close>.\<close>

definition nl2br :: "jsstring \<Rightarrow> jsstring" where
  "nl2br s = concat (map (\<lambda>c. if c = LF then js ''<br>'' else [c]) s)"

definition PRE_OPEN :: jsstring where
  \<open>PRE_OPEN = js ''<pre style="white-space:pre-wrap; margin:0">''\<close>

definition PRE_CLOSE :: jsstring where
  "PRE_CLOSE = js ''</pre>''"

definition convertAnsiToHtml :: "jsstring \<Rightarrow> jsstring" where
  "convertAnsiToHtml input =
     (case ansiLoop input default_style [] [] of
        (out, openSpan) \<Rightarrow>
          PRE_OPEN @ nl2br (if openSpan \<noteq> [] then out @ js ''</span>'' else out) @ PRE_CLOSE)"

section \<open>The emulator session (main.cjs)\<close>

subsection \<open>Line framing\<close>

text \<open>
  \<open>buffer.split(/\r?\n/)\<close>: the matcher is tried at each position from the left. At a
  carriage return it succeeds exactly when a newline follows (two code units are
  consumed), at a newline it succeeds (one code unit), anywhere else it fails and the code
  unit stays in the current segment. The text after the last match is the last segment,
  so the result is never empty.
\<close>

fun splitLines :: "jsstring \<Rightarrow> jsstring list" where
  "splitLines [] = [[]]"
| "splitLines (c # cs) =
     (if c = CR \<and> cs \<noteq> [] \<and> hd cs = LF then [] # splitLines (tl cs)
      else if c = LF then [] # splitLines cs
      else (case splitLines cs of
              [] \<Rightarrow> [[c]]
            | l # ls \<Rightarrow> (c # l) # ls))"

text \<open>
  Lines 202 to 207 of the stdout listener:
  \<open>buffer += dataStr; const lines = buffer.split(/\r?\n/); buffer = lines.pop() || "";\<close>
  The result is the complete lines and the new \<open>buffer\<close>.
\<close>

definition frame :: "jsstring \<Rightarrow> jsstring \<Rightarrow> jsstring list \<times> jsstring" where
  "frame buffer dataStr =
     (let lines = splitLines (buffer @ dataStr)
      in (butlast lines, if lines = [] then [] else last lines))"

text \<open>The framer fed a sequence of chunks, one at a time, from a given \<open>buffer\<close>.\<close>

fun feedChunks :: "jsstring \<Rightarrow> jsstring list \<Rightarrow> jsstring list \<times> jsstring" where
  "feedChunks buffer [] = ([], buffer)"
| "feedChunks buffer (chunk # chunks) =
     (case frame buffer chunk of
        (lines, buffer') \<Rightarrow>
          (case feedChunks buffer' chunks of
             (lines', buffer'') \<Rightarrow> (lines @ lines', buffer'')))"

subsection \<open>Events and effects\<close>

text \<open>
  A parsed JSON value. Numbers are kept as their source text. \<open>JSON.parse\<close> itself is
  the JavaScript built-in: the session takes it as a parameter \<open>parse\<close>, with \<open>None\<close>
  for a thrown \<open>SyntaxError\<close>.
\<close>

datatype json =
    JNull
  | JBool bool
  | JNumber jsstring
  | JString jsstring
  | JArray "json list"
  | JObject "(jsstring \<times> json) list"

fun hasTypeField :: "json \<Rightarrow> bool" where
  "hasTypeField (JObject members) = (js ''type'' \<in> set (map fst members))"
| "hasTypeField _ = False"

text \<open>
  What \<open>mainWindow.webContents.send\<close> delivers on the channels \<open>emulator:response\<close>,
  \<open>emulator:output\<close>, \<open>emulator:error\<close> and \<open>emulator:exit\<close>.
\<close>

datatype ipc =
    Response json
  | Output jsstring
  | Error jsstring
  | Exit int

datatype signal = SIGTERM | SIGKILL

datatype exn = TypeError

type_synonym path = "jsstring list"

text \<open>
  Everything the main process does to the outside, in the order it does it. A child
  process is named by the number of the \<open>spawn\<close> call that made it. \<open>Send p e\<close> is a
  \<open>send\<close> made by a listener of process \<open>p\<close>; the channel itself carries only \<open>e\<close>.
  \<open>Uncaught\<close> is an exception that leaves a handler.
\<close>

datatype effect =
    Send nat ipc
  | Kill nat signal
  | Spawn nat path "jsstring list"
  | StdinWrite nat jsstring
  | ShowErrorBox jsstring jsstring
  | SetTimeout nat
  | Uncaught exn

subsection \<open>getEmulatorPath\<close>

datatype platform = Win32 | Linux | Darwin | OtherPlatform

text \<open>
  What the main process reads from its surroundings: \<open>process.platform\<close>,
  \<open>app.isPackaged\<close>, \<open>process.resourcesPath\<close>, \<open>__dirname\<close> and the file system behind
  \<open>existsSync\<close>. A path is the list of its segments.
\<close>

record env =
  platform :: platform
  isPackaged :: bool
  resourcesPath :: path
  dirname :: path
  existsSync :: "path \<Rightarrow> bool"

text \<open>
  \<open>resourcePath(...parts)\<close>. A part may be \<open>null\<close> (\<open>None\<close>); \<open>path.join\<close> throws a
  \<open>TypeError\<close> for an argument that is not a string.
\<close>

definition resourcePath :: "env \<Rightarrow> jsstring option list \<Rightarrow> exn + path" where
  "resourcePath e parts =
     (if None \<in> set parts then Inl TypeError
      else Inr ((if isPackaged e then resourcesPath e else dirname e) @ map the parts))"

text \<open>The locals \<open>platformDir\<close> and \<open>fileName\<close> of \<open>getEmulatorPath\<close>.\<close>

definition platformDir :: "env \<Rightarrow> jsstring option" where
  "platformDir e =
     (case platform e of
        Win32 \<Rightarrow> Some (js ''win64'')
      | Linux \<Rightarrow> Some (js ''linux'')
      | Darwin \<Rightarrow> Some (js ''macos'')
      | OtherPlatform \<Rightarrow> None)"

definition fileName :: "env \<Rightarrow> jsstring" where
  "fileName e = (if platform e = Win32 then js ''emulator.exe'' else js ''emulator.out'')"

definition getEmulatorPath :: "env \<Rightarrow> exn + path option" where
  "getEmulatorPath e =
     (case resourcePath e [Some (js ''bin''), platformDir e, Some (fileName e)] of
        Inl x \<Rightarrow> Inl x
      | Inr p \<Rightarrow>
          if existsSync e p then Inr (Some p)
          else (case resourcePath e
                       [Some (js ''app.asar.unpacked''), Some (js ''bin''), platformDir e,
                        Some (fileName e)] of
                  Inl x \<Rightarrow> Inl x
                | Inr alt \<Rightarrow> if existsSync e alt then Inr (Some alt) else Inr None))"

subsection \<open>The session state\<close>

text \<open>
  The variables \<open>buffer\<close>, \<open>outputBuffer\<close> and \<open>totalOutput\<close> are local to one call of
  \<open>spawnEmulator\<close> and shared by the listeners that call attaches.
\<close>

record closure =
  buffer :: jsstring
  outputBuffer :: jsstring
  totalOutput :: nat

text \<open>
  \<open>emulatorProcess\<close> is the module's variable (\<open>None\<close> is \<open>null\<close>). \<open>procs\<close> holds the
  closure of every process spawned so far, process \<open>p\<close> at index \<open>p\<close>. \<open>timeouts\<close> are
  the delays of the pending \<open>setTimeout\<close> callbacks of the stop handler, and \<open>log\<close> is
  what has been done to the outside so far.
\<close>

record state =
  emulatorProcess :: "nat option"
  procs :: "closure list"
  timeouts :: "nat list"
  log :: "effect list"

definition initial :: state where
  "initial = \<lparr>emulatorProcess = None, procs = [], timeouts = [], log = []\<rparr>"

definition emit :: "effect list \<Rightarrow> state \<Rightarrow> state" where
  "emit es s = s\<lparr>log := log s @ es\<rparr>"

definition MAX_TOTAL_OUTPUT :: nat where
  "MAX_TOTAL_OUTPUT = 64 * 1024"

definition overflow_message :: jsstring where
  "overflow_message = js ''Emulator output exceeded limit. Process killed.''"

subsection \<open>spawnEmulator and its listeners\<close>

text \<open>
  \<open>emulatorProcess.kill()\<close> without an argument sends \<open>SIGTERM\<close>. The new process gets
  the next number and a fresh closure.
\<close>

definition spawnEmulator :: "env \<Rightarrow> jsstring \<Rightarrow> bool \<Rightarrow> state \<Rightarrow> state" where
  "spawnEmulator e programPath debugMode s =
     (case getEmulatorPath e of
        Inl x \<Rightarrow> emit [Uncaught x] s
      | Inr None \<Rightarrow>
          emit [ShowErrorBox (js ''Unsupported Platform'')
                  (js ''Your platform is not supported.'')] s
      | Inr (Some emulatorPath) \<Rightarrow>
          (let s1 = (case emulatorProcess s of
                       Some q \<Rightarrow> (emit [Kill q SIGTERM] s)\<lparr>emulatorProcess := None\<rparr>
                     | None \<Rightarrow> s);
               args = programPath # (if debugMode then [js ''--debug'', js ''IPC''] else []);
               pid = length (procs s1)
           in (emit [Spawn pid emulatorPath args] s1)
                \<lparr>emulatorProcess := Some pid,
                 procs := procs s1 @ [\<lparr>buffer = [], outputBuffer = [], totalOutput = 0\<rparr>]\<rparr>))"

text \<open>The body of \<open>lines.forEach\<close>: what one complete line sends.\<close>

definition classify :: "(jsstring \<Rightarrow> json option) \<Rightarrow> jsstring \<Rightarrow> ipc list" where
  "classify parse line =
     (if startsWith line [LBRACE] then
        (case parse line of
           Some json \<Rightarrow> [Response json]
         | None \<Rightarrow> [Output line])
      else if trim line \<noteq> [] then [Output (convertAnsiToHtml line)]
      else [])"

text \<open>
  The listener of \<open>stdout\<close> of process \<open>p\<close>. In the overflow branch
  \<open>emulatorProcess.kill()\<close> reads the module's variable: when it is \<open>null\<close> the call
  throws and nothing is sent.
\<close>

definition stdout_on_data ::
  "(jsstring \<Rightarrow> json option) \<Rightarrow> nat \<Rightarrow> jsstring \<Rightarrow> state \<Rightarrow> state" where
  "stdout_on_data parse p dataStr s =
     (let c = procs s ! p;
          total = totalOutput c + length dataStr
      in if total > MAX_TOTAL_OUTPUT then
           (let s1 = s\<lparr>procs := (procs s)[p := c\<lparr>totalOutput := total\<rparr>]\<rparr>
            in case emulatorProcess s1 of
                 None \<Rightarrow> emit [Uncaught TypeError] s1
               | Some q \<Rightarrow> emit [Kill q SIGTERM, Send p (Error overflow_message)] s1)
         else
           (case frame (buffer c) dataStr of
              (lines, buffer') \<Rightarrow>
                emit (map (Send p) (concat (map (classify parse) lines)))
                  (s\<lparr>procs := (procs s)[p := c\<lparr>totalOutput := total, buffer := buffer',
                                                outputBuffer := outputBuffer c @ dataStr\<rparr>]\<rparr>)))"

definition stderr_on_data :: "nat \<Rightarrow> jsstring \<Rightarrow> state \<Rightarrow> state" where
  "stderr_on_data p errorStr s =
     (let c = procs s ! p
      in emit ((if includes_str errorStr (js ''Error parsing'')
                then [Send p (Output (convertAnsiToHtml errorStr))] else []) @
               [Send p (Error errorStr)])
           (s\<lparr>procs := (procs s)[p := c\<lparr>outputBuffer :=
                                           outputBuffer c @ js ''[ERROR] '' @ errorStr\<rparr>]\<rparr>))"

text \<open>The listener of \<open>error\<close>; \<open>message\<close> is \<open>err.message\<close>.\<close>

definition on_error :: "nat \<Rightarrow> jsstring \<Rightarrow> state \<Rightarrow> state" where
  "on_error p message s =
     (emit [Send p (Error (js ''Failed to start emulator: '' @ message))] s)
       \<lparr>emulatorProcess := None\<rparr>"

text \<open>The listener of \<open>exit\<close>; \<open>code\<close> is a number or \<open>null\<close>, and \<open>code || 0\<close> is sent.\<close>

definition on_exit :: "nat \<Rightarrow> int option \<Rightarrow> state \<Rightarrow> state" where
  "on_exit p code s =
     (emit [Send p (Exit (case code of None \<Rightarrow> 0 | Some n \<Rightarrow> n))] s)
       \<lparr>emulatorProcess := None\<rparr>"

subsection \<open>The IPC handlers\<close>

datatype command_error = NotRunning

text \<open>
  The handler of \<open>emulator:command\<close>: \<open>Inl NotRunning\<close> is the returned object
  \<open>{ error: "Emulator not running" }\<close>, \<open>Inr ()\<close> the return without a value.
\<close>

definition emulator_command :: "jsstring \<Rightarrow> state \<Rightarrow> (command_error + unit) \<times> state" where
  "emulator_command command s =
     (case emulatorProcess s of
        None \<Rightarrow> (Inl NotRunning, s)
      | Some p \<Rightarrow> (Inr (), emit [StdinWrite p (command @ [LF])] s))"

text \<open>
  The handler of \<open>emulator:stop\<close>, and the callback it hands to \<open>setTimeout\<close>. The
  callback reads the module's variable when it runs.
\<close>

definition emulator_stop :: "state \<Rightarrow> state" where
  "emulator_stop s =
     (case emulatorProcess s of
        None \<Rightarrow> s
      | Some p \<Rightarrow>
          (emit [Kill p SIGTERM, SetTimeout 1000] s)
            \<lparr>timeouts := timeouts s @ [1000], emulatorProcess := None\<rparr>)"

definition stop_timeout :: "state \<Rightarrow> state" where
  "stop_timeout s =
     (case emulatorProcess s of
        None \<Rightarrow> s
      | Some p \<Rightarrow> emit [Kill p SIGKILL] s)"

subsection \<open>Runs of the session\<close>

text \<open>
  What can happen to the main process: a request on one of the three channels, an event
  of a child process, or the oldest pending timeout running. An event of a process that
  was never spawned has no listener. A timeout runs only if one is pending.
\<close>

datatype input =
    Start jsstring bool
  | Stop
  | Command jsstring
  | StdoutData nat jsstring
  | StderrData nat jsstring
  | ProcError nat jsstring
  | ProcExit nat "int option"
  | TimeoutFires

definition step ::
  "(jsstring \<Rightarrow> json option) \<Rightarrow> env \<Rightarrow> state \<Rightarrow> input \<Rightarrow> state" where
  "step parse e s i =
     (case i of
        Start programPath debugMode \<Rightarrow> spawnEmulator e programPath debugMode s
      | Stop \<Rightarrow> emulator_stop s
      | Command command \<Rightarrow> snd (emulator_command command s)
      | StdoutData p dataStr \<Rightarrow>
          if p < length (procs s) then stdout_on_data parse p dataStr s else s
      | StderrData p errorStr \<Rightarrow>
          if p < length (procs s) then stderr_on_data p errorStr s else s
      | ProcError p message \<Rightarrow> if p < length (procs s) then on_error p message s else s
      | ProcExit p code \<Rightarrow> if p < length (procs s) then on_exit p code s else s
      | TimeoutFires \<Rightarrow>
          if timeouts s = [] then s else stop_timeout (s\<lparr>timeouts := tl (timeouts s)\<rparr>))"

definition run ::
  "(jsstring \<Rightarrow> json option) \<Rightarrow> env \<Rightarrow> state \<Rightarrow> input list \<Rightarrow> state" where
  "run parse e s is = foldl (step parse e) s is"

subsection \<open>Reading the log\<close>

text \<open>The processes for which an \<open>exit\<close> event has been sent.\<close>

fun exitedPids :: "effect list \<Rightarrow> nat list" where
  "exitedPids [] = []"
| "exitedPids (Send p (Exit code) # es) = p # exitedPids es"
| "exitedPids (x # es) = exitedPids es"

text \<open>
  No command is written to a process after its \<open>exit\<close> event. \<open>writesOk\<close> reads the log
  backwards, the latest effect first.
\<close>

fun writesOk :: "effect list \<Rightarrow> bool" where
  "writesOk [] = True"
| "writesOk (StdinWrite p text # older) = (p \<notin> set (exitedPids older) \<and> writesOk older)"
| "writesOk (x # older) = writesOk older"

definition noWriteAfterExit :: "effect list \<Rightarrow> bool" where
  "noWriteAfterExit l = writesOk (rev l)"

text \<open>
  What a step added to the log, an output or message event among the effects, and an
  exit notification of a given process among the inputs.
\<close>

definition newEffects :: "state \<Rightarrow> state \<Rightarrow> effect list" where
  "newEffects s s' = drop (length (log s)) (log s')"

fun isOutputOrMessage :: "effect \<Rightarrow> bool" where
  "isOutputOrMessage (Send p (Output html)) = True"
| "isOutputOrMessage (Send p (Response json)) = True"
| "isOutputOrMessage x = False"

fun isExitOf :: "nat \<Rightarrow> input \<Rightarrow> bool" where
  "isExitOf p (ProcExit q code) = (q = p)"
| "isExitOf p i = False"

text \<open>A start request that gets as far as \<open>spawn\<close>.\<close>

definition startSucceeds :: "env \<Rightarrow> input \<Rightarrow> bool" where
  "startSucceeds e i =
     (case i of
        Start programPath debugMode \<Rightarrow>
          (case getEmulatorPath e of Inr (Some emulatorPath) \<Rightarrow> True | _ \<Rightarrow> False)
      | _ \<Rightarrow> False)"

subsection \<open>The framing contract in the words of the specification\<close>

text \<open>
  A line ends at a newline, and a carriage return right before that newline belongs to
  the terminator. The text is cut at every newline; each terminated segment loses one
  trailing carriage return; the segment after the last newline is the unterminated
  remainder.
\<close>

definition stripCR :: "jsstring \<Rightarrow> jsstring" where
  "stripCR l = (if l \<noteq> [] \<and> last l = CR then butlast l else l)"

definition spec_split :: "jsstring \<Rightarrow> jsstring list \<times> jsstring" where
  "spec_split text =
     (let segments = split_on LF text
      in (map stripCR (butlast segments), last segments))"

subsection \<open>Inputs used to run the model\<close>

text \<open>
  A development checkout on Linux; \<open>installed\<close> says whether the emulator binary is on
  the disk.
\<close>

definition linux_dev :: "bool \<Rightarrow> env" where
  "linux_dev installed =
     \<lparr>platform = Linux, isPackaged = False, resourcesPath = [js ''resources''],
      dirname = [js ''app''], existsSync = (\<lambda>p. installed)\<rparr>"

text \<open>
  A parser that agrees with \<open>JSON.parse\<close> on the text \<open>{}\<close>, the object without
  members, and rejects every other text. It is only used to run the classifier on the
  line \<open>{}\<close>.
\<close>

definition parse_empty_object :: "jsstring \<Rightarrow> json option" where
  "parse_empty_object text = (if text = js ''{}'' then Some (JObject []) else None)"


subsection \<open>An invariant of the session\<close>

text \<open>
  The log has no write after an exit, the process handle names a spawned process that
  has sent no \<open>exit\<close> event, and only spawned processes have sent one.
\<close>

definition sessionInv :: "state \<Rightarrow> bool" where
  "sessionInv s \<longleftrightarrow>
     noWriteAfterExit (log s) \<and>
     (case emulatorProcess s of
        None \<Rightarrow> True
      | Some p \<Rightarrow> p < length (procs s) \<and> p \<notin> set (exitedPids (log s))) \<and>
     list_all (\<lambda>p. p < length (procs s)) (exitedPids (log s))"

section \<open>Properties of the renderer\<close>

lemmas jschar_defs =
  LF_def CR_def ESC_def LBRACKET_def LBRACE_def SEMI_def CH_m_def AMP_def LT_def GT_def
  DQUOTE_def PLUS_def MINUS_def

text \<open>
  C8. A carriage return discards what the render buffer holds since its last newline:
  rendering \<open>AAA\rBB\<close> leaves only \<open>BB\<close>. The renderer does so at every carriage
  return, also at one that a newline follows: rendering \<open>AAA\r\nBB\<close> loses \<open>AAA\<close> and
  gives a line break followed by \<open>BB\<close>. The stderr listener renders whole chunks, so
  such a text reaches the renderer: the chunk \<open>Error parsing\r\nBB\<close> is sent as output
  without its first line.
\<close>

theorem carriage_return_discards_line:
  "convertAnsiToHtml (js ''AAA'' @ [CR] @ js ''BB'') = PRE_OPEN @ js ''BB'' @ PRE_CLOSE \<and>
   convertAnsiToHtml (js ''AAA'' @ [CR, LF] @ js ''BB'') = PRE_OPEN @ js ''<br>BB'' @ PRE_CLOSE \<and>
   log (stderr_on_data 0 (js ''Error parsing'' @ [CR, LF] @ js ''BB'')
          (initial\<lparr>procs := [\<lparr>buffer = [], outputBuffer = [], totalOutput = 0\<rparr>]\<rparr>)) =
     [Send 0 (Output (PRE_OPEN @ js ''<br>BB'' @ PRE_CLOSE)),
      Send 0 (Error (js ''Error parsing'' @ [CR, LF] @ js ''BB''))]"
  by code_simp









section \<open>Properties of the framer and the classifier\<close>

lemma split_on_nonempty: "split_on sep s \<noteq> []"
  by (induction s) (auto split: list.splits)

lemma splitLines_nonempty: "splitLines s \<noteq> []"
  by (induction s rule: splitLines.induct) (auto split: list.splits)

lemma split_on_Cons_other:
  "c \<noteq> sep \<Longrightarrow> split_on sep (c # cs) = (c # hd (split_on sep cs)) # tl (split_on sep cs)"
  using split_on_nonempty [of sep cs] by (cases "split_on sep cs") auto

lemma split_on_append:
  "split_on sep (x @ y) = butlast (split_on sep x) @ split_on sep (last (split_on sep x) @ y)"
proof (induction x)
  case Nil
  show ?case by simp
next
  case (Cons c cs)
  show ?case
  proof (cases "c = sep")
    case True
    then show ?thesis using Cons.IH split_on_nonempty [of sep cs] by simp
  next
    case False
    obtain l ls where S: "split_on sep cs = l # ls"
      using split_on_nonempty [of sep cs] by (cases "split_on sep cs") auto
    show ?thesis
    proof (cases "ls = []")
      case True
      with S False Cons.IH show ?thesis by (simp add: split_on_Cons_other)
    next
      case nonempty: False
      with S False Cons.IH show ?thesis by (simp add: split_on_Cons_other)
    qed
  qed
qed

lemma split_on_head_empty:
  "split_on sep cs = [] # ls \<Longrightarrow> ls \<noteq> [] \<Longrightarrow> cs \<noteq> [] \<and> hd cs = sep"
  by (cases cs) (auto split: if_splits list.splits)

lemma stripCR_Cons: "l \<noteq> [] \<Longrightarrow> stripCR (c # l) = c # stripCR l"
  by (simp add: stripCR_def)

lemma splitLines_spec:
  "splitLines t = map stripCR (butlast (split_on LF t)) @ [last (split_on LF t)]"
proof (induction t rule: splitLines.induct)
  case 1
  show ?case by simp
next
  case (2 c cs)
  have neq: "CR \<noteq> LF" by (simp add: jschar_defs)
  show ?case
  proof (cases "c = CR \<and> cs \<noteq> [] \<and> hd cs = LF")
    case True
    then obtain r where cs: "cs = LF # r" by (cases cs) auto
    with True have IH: "splitLines r = map stripCR (butlast (split_on LF r)) @ [last (split_on LF r)]"
      using "2.IH"(1) by simp
    from True cs neq show ?thesis
      using split_on_nonempty [of LF r] by (simp add: IH stripCR_def)
  next
    case notcrlf: False
    show ?thesis
    proof (cases "c = LF")
      case True
      with notcrlf have IH: "splitLines cs = map stripCR (butlast (split_on LF cs)) @ [last (split_on LF cs)]"
        using "2.IH"(2) by simp
      from True notcrlf neq show ?thesis
        using split_on_nonempty [of LF cs] by (simp add: IH stripCR_def)
    next
      case False
      with notcrlf have IH: "splitLines cs = map stripCR (butlast (split_on LF cs)) @ [last (split_on LF cs)]"
        using "2.IH"(3) by simp
      obtain l ls where S: "split_on LF cs = l # ls"
        using split_on_nonempty [of LF cs] by (cases "split_on LF cs") auto
      show ?thesis
      proof (cases "ls = []")
        case True
        with S False notcrlf IH show ?thesis by simp
      next
        case lsne: False
        have "stripCR (c # l) = c # stripCR l"
        proof (cases "l = []")
          case True
          with S lsne have "cs \<noteq> [] \<and> hd cs = LF" using split_on_head_empty by blast
          with notcrlf have "c \<noteq> CR" by blast
          with True show ?thesis by (simp add: stripCR_def)
        next
          case False
          then show ?thesis by (rule stripCR_Cons)
        qed
        with S False notcrlf IH lsne show ?thesis by simp
      qed
    qed
  qed
qed

lemma frame_spec:
  "frame b d = (map stripCR (butlast (split_on LF (b @ d))), last (split_on LF (b @ d)))"
  using split_on_nonempty [of LF "b @ d"]
  by (simp add: frame_def Let_def splitLines_spec)

lemma split_on_no_sep: "sep \<notin> set s \<Longrightarrow> split_on sep s = [s]"
  by (induction s) auto

lemma last_split_on_no_sep: "sep \<notin> set (last (split_on sep s))"
proof (induction s)
  case Nil
  show ?case by simp
next
  case (Cons c cs)
  obtain l ls where S: "split_on sep cs = l # ls"
    using split_on_nonempty [of sep cs] by (cases "split_on sep cs") auto
  with Cons show ?case by (cases "ls = []") auto
qed

lemma feedChunks_spec:
  "LF \<notin> set b \<Longrightarrow>
   feedChunks b chunks =
     (map stripCR (butlast (split_on LF (b @ concat chunks))),
      last (split_on LF (b @ concat chunks)))"
proof (induction chunks arbitrary: b)
  case Nil
  then show ?case by (simp add: split_on_no_sep)
next
  case (Cons c cs)
  let ?S = "split_on LF"
  have app: "?S ((b @ c) @ concat cs) = butlast (?S (b @ c)) @ ?S (last (?S (b @ c)) @ concat cs)"
    by (rule split_on_append)
  have ne: "?S (last (?S (b @ c)) @ concat cs) \<noteq> []" by (rule split_on_nonempty)
  have IH: "feedChunks (last (?S (b @ c))) cs =
     (map stripCR (butlast (?S (last (?S (b @ c)) @ concat cs))),
      last (?S (last (?S (b @ c)) @ concat cs)))"
    by (rule Cons.IH) (rule last_split_on_no_sep)
  show ?case
    using app ne by (simp add: frame_spec IH butlast_append)
qed

text \<open>
  C2. Feeding the framer a sequence of chunks one at a time, from the empty buffer,
  yields exactly the lines of the concatenated text: the text cut at every \<open>\n\<close>, a
  \<open>\r\<close> right before the \<open>\n\<close> counted with the terminator, without the last,
  unterminated segment, which is what the buffer holds afterwards. Two sequences of
  chunks with the same concatenation therefore give the same lines and the same buffer.
  At each chunk the buffer is put in front of the chunk, and what is kept as the new
  buffer contains no terminator, so it is not among the lines.
\<close>

theorem framer_chunk_invariance:
  "feedChunks [] chunks = spec_split (concat chunks) \<and>
   (\<forall>chunks'. concat chunks' = concat chunks \<longrightarrow> feedChunks [] chunks' = feedChunks [] chunks) \<and>
   (LF \<notin> set pending \<longrightarrow>
      frame pending chunk = spec_split (pending @ chunk) \<and>
      LF \<notin> set (snd (frame pending chunk)))"
proof (intro conjI allI impI)
  show a: "feedChunks [] chunks = spec_split (concat chunks)" for chunks
    using feedChunks_spec [of "[]" chunks] by (simp add: spec_split_def Let_def)
  show "feedChunks [] chunks' = feedChunks [] chunks" if "concat chunks' = concat chunks" for chunks'
    using that by (simp add: a)
  show "frame pending chunk = spec_split (pending @ chunk)"
    by (simp add: frame_spec spec_split_def Let_def)
  show "LF \<notin> set (snd (frame pending chunk))"
    by (simp add: frame_spec last_split_on_no_sep)
qed

theorem framer_chunk_invariance_witness:
  "feedChunks [] [js ''a'' @ [CR], [LF] @ js ''b'', [LF] @ js '' c''] = ([js ''a'', js ''b''], js '' c'') \<and>
   feedChunks [] [js ''a'' @ [CR, LF] @ js ''b'' @ [LF] @ js '' c''] =
     feedChunks [] [js ''a'' @ [CR], [LF] @ js ''b'', [LF] @ js '' c''] \<and>
   frame (js ''a'' @ [CR]) ([LF] @ js ''b'') = ([js ''a''], js ''b'')"
proof -
  let ?one = "[js ''a'' @ [CR, LF] @ js ''b'' @ [LF] @ js '' c'']"
  let ?three = "[js ''a'' @ [CR], [LF] @ js ''b'', [LF] @ js '' c'']"
  have c: "concat ?one = concat ?three" by simp
  have p: "LF \<notin> set (js ''a'' @ [CR])" by (simp add: js_def jschar_defs)
  have s1: "spec_split (concat ?three) = ([js ''a'', js ''b''], js '' c'')"
    by (simp add: spec_split_def stripCR_def js_def jschar_defs)
  have s2: "spec_split ((js ''a'' @ [CR]) @ [LF] @ js ''b'') = ([js ''a''], js ''b'')"
    by (simp add: spec_split_def stripCR_def js_def jschar_defs)
  from framer_chunk_invariance [of ?three "js ''a'' @ [CR]" "[LF] @ js ''b''"] c p s1 s2
  show ?thesis by metis
qed

lemma trim_empty_iff: "trim s = [] \<longleftrightarrow> (\<forall>c \<in> set s. isWhiteSpace c)"
proof
  assume "trim s = []"
  then have "\<forall>c \<in> set (dropWhile isWhiteSpace s). isWhiteSpace c"
    by (simp add: trim_def dropWhile_eq_Nil_conv)
  then have "dropWhile isWhiteSpace s = []"
    using hd_dropWhile [of isWhiteSpace s] hd_in_set [of "dropWhile isWhiteSpace s"] by blast
  then show "\<forall>c \<in> set s. isWhiteSpace c" by (simp add: dropWhile_eq_Nil_conv)
next
  assume "\<forall>c \<in> set s. isWhiteSpace c"
  then have "dropWhile isWhiteSpace s = []" by (simp add: dropWhile_eq_Nil_conv)
  then have "rev (dropWhile isWhiteSpace (rev (dropWhile isWhiteSpace s))) = []"
    by (simp only: rev.simps dropWhile.simps)
  then show "trim s = []" by (simp only: trim_def)
qed

lemma startsWith_single: "startsWith line [c] \<longleftrightarrow> line \<noteq> [] \<and> hd line = c"
  by (cases line) (auto simp: startsWith_def)

text \<open>
  C4, as the code has it. A complete line sends at most one event. It sends a structured
  message exactly when it begins with \<open>{\<close> and \<open>JSON.parse\<close> accepts it, whatever
  members the parsed value has; the message carries the parsed value. A line that begins
  with \<open>{\<close> and is rejected by the parser is sent as output, raw. Any other line with a
  code unit that is not white space is sent as output, rendered by \<open>convertAnsiToHtml\<close>.
  A line of white space only, or an empty one, sends nothing.
\<close>

theorem classify_line:
  "length (classify parse line) \<le> 1 \<and>
   ((\<exists>json. classify parse line = [Response json]) \<longleftrightarrow>
      (line \<noteq> [] \<and> hd line = LBRACE \<and> parse line \<noteq> None)) \<and>
   (line \<noteq> [] \<and> hd line = LBRACE \<and> parse line = Some json \<longrightarrow>
      classify parse line = [Response json]) \<and>
   (line \<noteq> [] \<and> hd line = LBRACE \<and> parse line = None \<longrightarrow>
      classify parse line = [Output line]) \<and>
   (\<not> (line \<noteq> [] \<and> hd line = LBRACE) \<and> (\<exists>c \<in> set line. \<not> isWhiteSpace c) \<longrightarrow>
      classify parse line = [Output (convertAnsiToHtml line)]) \<and>
   ((\<forall>c \<in> set line. isWhiteSpace c) \<longrightarrow> classify parse line = [])"
proof -
  have ws: "\<not> isWhiteSpace LBRACE" by (simp add: isWhiteSpace_def jschar_defs)
  have blank: "\<not> (line \<noteq> [] \<and> hd line = LBRACE)" if "\<forall>c \<in> set line. isWhiteSpace c"
    using that ws hd_in_set [of line] by metis
  show ?thesis
    using blank
    by (auto simp: classify_def startsWith_single trim_empty_iff split: option.splits)
qed

theorem classify_line_witness:
  "classify parse_empty_object (js ''{}'') = [Response (JObject [])] \<and>
   classify parse_empty_object (js ''{bad'') = [Output (js ''{bad'')] \<and>
   classify parse_empty_object (js '' x'') = [Output (convertAnsiToHtml (js '' x''))] \<and>
   classify parse_empty_object (js ''  '') = []"
proof -
  have a: "js ''{}'' \<noteq> [] \<and> hd (js ''{}'') = LBRACE \<and> parse_empty_object (js ''{}'') = Some (JObject [])"
    by (simp add: js_def jschar_defs parse_empty_object_def)
  have b: "js ''{bad'' \<noteq> [] \<and> hd (js ''{bad'') = LBRACE \<and> parse_empty_object (js ''{bad'') = None"
    by (simp add: js_def jschar_defs parse_empty_object_def)
  have c: "\<not> (js '' x'' \<noteq> [] \<and> hd (js '' x'') = LBRACE) \<and> (\<exists>c \<in> set (js '' x''). \<not> isWhiteSpace c)"
    by (simp add: js_def jschar_defs isWhiteSpace_def)
  have d: "\<forall>c \<in> set (js ''  ''). isWhiteSpace c"
    by (simp add: js_def isWhiteSpace_def)
  from classify_line [of parse_empty_object "js ''{}''" "JObject []"] a
  have 1: "classify parse_empty_object (js ''{}'') = [Response (JObject [])]" by blast
  from classify_line [of parse_empty_object "js ''{bad''"] b
  have 2: "classify parse_empty_object (js ''{bad'') = [Output (js ''{bad'')]" by blast
  from classify_line [of parse_empty_object "js '' x''"] c
  have 3: "classify parse_empty_object (js '' x'') = [Output (convertAnsiToHtml (js '' x''))]" by blast
  from classify_line [of parse_empty_object "js ''  ''"] d
  have 4: "classify parse_empty_object (js ''  '') = []" by blast
  from 1 2 3 4 show ?thesis by simp
qed

text \<open>
  C4 as stated fails: the line \<open>{}\<close> begins with \<open>{\<close> and parses as JSON, and it is
  sent as a structured message although the parsed object has no \<open>type\<close> member.
\<close>

theorem message_without_type_field:
  "classify parse_empty_object (js ''{}'') = [Response (JObject [])] \<and>
   \<not> hasTypeField (JObject [])"
  by (simp add: classify_def startsWith_def parse_empty_object_def js_def jschar_defs)

section \<open>Properties of the session\<close>

text \<open>
  C7. The command handler returns the not-running error exactly when no process handle
  is set, and then changes nothing. Otherwise it writes the command followed by one
  newline to the standard input of the process the handle names, and nothing else, and
  returns without an error.
\<close>

theorem emulator_command_result:
  "(fst (emulator_command command s) = Inl NotRunning \<longleftrightarrow> emulatorProcess s = None) \<and>
   (emulatorProcess s = None \<longrightarrow> emulator_command command s = (Inl NotRunning, s)) \<and>
   (emulatorProcess s = Some p \<longrightarrow>
      emulator_command command s = (Inr (), s\<lparr>log := log s @ [StdinWrite p (command @ [LF])]\<rparr>))"
  by (auto simp: emulator_command_def emit_def split: option.splits)

theorem emulator_command_result_witness:
  "emulator_command (js ''step'') initial = (Inl NotRunning, initial) \<and>
   emulator_command (js ''step'') (initial\<lparr>emulatorProcess := Some 0\<rparr>) =
     (Inr (), initial\<lparr>emulatorProcess := Some 0, log := [StdinWrite 0 (js ''step'' @ [LF])]\<rparr>)"
proof -
  have a: "emulatorProcess initial = None" by (simp add: initial_def)
  have b: "emulatorProcess (initial\<lparr>emulatorProcess := Some 0\<rparr>) = Some 0" by simp
  have c: "log (initial\<lparr>emulatorProcess := Some 0\<rparr>) = []" by (simp add: initial_def)
  from emulator_command_result [of "js ''step''" initial] a
  have 1: "emulator_command (js ''step'') initial = (Inl NotRunning, initial)" by blast
  from emulator_command_result [of "js ''step''" "initial\<lparr>emulatorProcess := Some 0\<rparr>" 0] b
  have 2: "emulator_command (js ''step'') (initial\<lparr>emulatorProcess := Some 0\<rparr>) =
     (Inr (), (initial\<lparr>emulatorProcess := Some 0\<rparr>)\<lparr>log := log (initial\<lparr>emulatorProcess := Some 0\<rparr>) @ [StdinWrite 0 (js ''step'' @ [LF])]\<rparr>)"
    by blast
  from 1 2 c show ?thesis by simp
qed

lemma getEmulatorPath_None_iff:
  "getEmulatorPath e = Inr None \<longleftrightarrow>
     (\<exists>d. platformDir e = Some d \<and>
          \<not> existsSync e ((if isPackaged e then resourcesPath e else dirname e) @
                           [js ''bin'', d, fileName e]) \<and>
          \<not> existsSync e ((if isPackaged e then resourcesPath e else dirname e) @
                           [js ''app.asar.unpacked'', js ''bin'', d, fileName e]))"
  by (cases "platformDir e") (auto simp: getEmulatorPath_def resourcePath_def)

text \<open>
  C6, as the code has it. \<open>getEmulatorPath\<close> finds nothing exactly when the platform is
  one of the three supported ones and neither the expected location nor the unpacked
  fallback holds the executable. \<open>spawnEmulator\<close> then shows one native error dialog and
  returns: nothing is sent on any channel, no process is killed or spawned, and the
  session state is as before.
\<close>

theorem start_without_executable:
  "(getEmulatorPath e = Inr None \<longleftrightarrow>
     (\<exists>d. platformDir e = Some d \<and>
          \<not> existsSync e ((if isPackaged e then resourcesPath e else dirname e) @
                           [js ''bin'', d, fileName e]) \<and>
          \<not> existsSync e ((if isPackaged e then resourcesPath e else dirname e) @
                           [js ''app.asar.unpacked'', js ''bin'', d, fileName e]))) \<and>
   (getEmulatorPath e = Inr None \<longrightarrow>
      spawnEmulator e programPath debugMode s =
        s\<lparr>log := log s @ [ShowErrorBox (js ''Unsupported Platform'')
                             (js ''Your platform is not supported.'')]\<rparr>)"
proof (intro conjI impI)
  assume "getEmulatorPath e = Inr None"
  then show "spawnEmulator e programPath debugMode s =
        s\<lparr>log := log s @ [ShowErrorBox (js ''Unsupported Platform'')
                             (js ''Your platform is not supported.'')]\<rparr>"
    by (simp add: spawnEmulator_def emit_def)
qed (rule getEmulatorPath_None_iff)

lemma getEmulatorPath_linux_missing: "getEmulatorPath (linux_dev False) = Inr None"
  by (simp add: getEmulatorPath_def resourcePath_def linux_dev_def platformDir_def fileName_def)

lemma getEmulatorPath_linux_installed:
  "getEmulatorPath (linux_dev True) = Inr (Some [js ''app'', js ''bin'', js ''linux'', js ''emulator.out''])"
  by (simp add: getEmulatorPath_def resourcePath_def linux_dev_def platformDir_def fileName_def)

theorem start_without_executable_witness:
  "spawnEmulator (linux_dev False) (js ''prog.ias'') True initial =
     initial\<lparr>log := [ShowErrorBox (js ''Unsupported Platform'')
                        (js ''Your platform is not supported.'')]\<rparr>"
  using start_without_executable [of "linux_dev False" "js ''prog.ias''" True initial]
    getEmulatorPath_linux_missing
  by (simp add: initial_def)

text \<open>
  C6 as stated fails: with no executable on the disk, a start request sends no
  \<open>error\<close> event at all; the only effect is the dialog.
\<close>

theorem no_error_event_without_executable:
  "log (spawnEmulator (linux_dev False) (js ''prog.ias'') False initial) =
     [ShowErrorBox (js ''Unsupported Platform'') (js ''Your platform is not supported.'')]"
  by (simp add: spawnEmulator_def getEmulatorPath_linux_missing emit_def initial_def)

lemmas handler_defs =
  step_def spawnEmulator_def stdout_on_data_def stderr_on_data_def on_error_def on_exit_def
  emulator_command_def emulator_stop_def stop_timeout_def emit_def

lemma stdout_on_data_frames:
  assumes "p < length (procs s)"
    and "totalOutput (procs s ! p) + length dataStr \<le> MAX_TOTAL_OUTPUT"
  shows "log (stdout_on_data parse p dataStr s) =
           log s @ map (Send p)
                     (concat (map (classify parse) (fst (frame (buffer (procs s ! p)) dataStr))))"
    and "buffer (procs (stdout_on_data parse p dataStr s) ! p) =
           snd (frame (buffer (procs s ! p)) dataStr)"
  using assms by (simp_all add: stdout_on_data_def Let_def emit_def split: prod.splits)

lemma step_procs_mono:
  "length (procs s) \<le> length (procs (step parse e s i))"
  by (cases i)
     (auto simp: handler_defs Let_def split: sum.splits option.splits prod.splits)

lemma step_totalOutput_mono:
  "p < length (procs s) \<Longrightarrow>
   totalOutput (procs s ! p) \<le> totalOutput (procs (step parse e s i) ! p)"
  by (cases i)
     (auto simp: handler_defs Let_def nth_append nth_list_update
           split: sum.splits option.splits prod.splits)

lemma run_overflow_persists:
  "p < length (procs s) \<Longrightarrow> MAX_TOTAL_OUTPUT < totalOutput (procs s ! p) \<Longrightarrow>
   p < length (procs (run parse e s inputs)) \<and>
   MAX_TOTAL_OUTPUT < totalOutput (procs (run parse e s inputs) ! p)"
proof (induction inputs arbitrary: s)
  case Nil
  then show ?case by (simp add: run_def)
next
  case (Cons i inputs)
  have a: "p < length (procs (step parse e s i))"
    using Cons.prems(1) step_procs_mono [of s parse e i] by simp
  have b: "MAX_TOTAL_OUTPUT < totalOutput (procs (step parse e s i) ! p)"
    using Cons.prems step_totalOutput_mono [of p s parse e i] by simp
  from Cons.IH [OF a b] show ?case by (simp add: run_def)
qed

lemma started:
  "spawnEmulator (linux_dev True) programPath False initial =
     \<lparr>emulatorProcess = Some 0,
      procs = [\<lparr>buffer = [], outputBuffer = [], totalOutput = 0\<rparr>],
      timeouts = [],
      log = [Spawn 0 [js ''app'', js ''bin'', js ''linux'', js ''emulator.out''] [programPath]]\<rparr>"
  by (simp add: spawnEmulator_def getEmulatorPath_linux_installed emit_def initial_def)

text \<open>
  C5. After a stop request the handle is cleared at once, and the timeout's callback
  reads the handle when it runs: a stopped process that ignores \<open>SIGTERM\<close> is never
  sent \<open>SIGKILL\<close>, and when a new process was started within the grace window the
  \<open>SIGKILL\<close> goes to the new process.
\<close>

theorem stop_never_forces_kill:
  "log (run parse_empty_object (linux_dev True) initial
          [Start (js ''prog.ias'') False, Stop, TimeoutFires]) =
     [Spawn 0 [js ''app'', js ''bin'', js ''linux'', js ''emulator.out''] [js ''prog.ias''],
      Kill 0 SIGTERM, SetTimeout 1000] \<and>
   log (run parse_empty_object (linux_dev True) initial
          [Start (js ''prog.ias'') False, Stop, Start (js ''prog.ias'') False, TimeoutFires]) =
     [Spawn 0 [js ''app'', js ''bin'', js ''linux'', js ''emulator.out''] [js ''prog.ias''],
      Kill 0 SIGTERM, SetTimeout 1000,
      Spawn 1 [js ''app'', js ''bin'', js ''linux'', js ''emulator.out''] [js ''prog.ias''],
      Kill 1 SIGKILL]"
  by (simp add: run_def step_def spawnEmulator_def getEmulatorPath_linux_installed
        emulator_stop_def stop_timeout_def emit_def initial_def Let_def)

text \<open>
  C3. Two start requests in succession, then the exit of the first process: its exit
  listener clears the handle, which by then names the second process. The second
  process is still running, but a command sent now is refused as not running.
\<close>

theorem stale_exit_clears_new_handle:
  "log (run parse_empty_object (linux_dev True) initial
          [Start (js ''prog.ias'') False, Start (js ''prog.ias'') False, ProcExit 0 None]) =
     [Spawn 0 [js ''app'', js ''bin'', js ''linux'', js ''emulator.out''] [js ''prog.ias''],
      Kill 0 SIGTERM,
      Spawn 1 [js ''app'', js ''bin'', js ''linux'', js ''emulator.out''] [js ''prog.ias''],
      Send 0 (Exit 0)] \<and>
   emulatorProcess (run parse_empty_object (linux_dev True) initial
          [Start (js ''prog.ias'') False, Start (js ''prog.ias'') False, ProcExit 0 None]) = None \<and>
   fst (emulator_command (js ''step'') (run parse_empty_object (linux_dev True) initial
          [Start (js ''prog.ias'') False, Start (js ''prog.ias'') False, ProcExit 0 None])) =
     Inl NotRunning"
  by (simp add: run_def step_def spawnEmulator_def getEmulatorPath_linux_installed
        on_exit_def emulator_command_def emit_def initial_def Let_def)

lemma exitedPids_append: "exitedPids (xs @ ys) = exitedPids xs @ exitedPids ys"
  by (induction xs rule: exitedPids.induct) simp_all

lemma set_exitedPids_rev: "set (exitedPids (rev xs)) = set (exitedPids xs)"
  by (induction xs rule: exitedPids.induct) (simp_all add: exitedPids_append)

lemma classify_no_exit: "Exit code \<notin> set (classify parse line)"
  by (auto simp: classify_def split: option.splits)

lemma exitedPids_sends:
  "(\<forall>code. Exit code \<notin> set evs) \<Longrightarrow> exitedPids (map (Send p) evs) = []"
proof (induction evs)
  case Nil
  show ?case by simp
next
  case (Cons ev evs)
  then show ?case by (cases ev) auto
qed

lemma writesOk_sends: "writesOk (map (Send p) evs @ older) = writesOk older"
  by (induction evs) simp_all

lemma writesOk_rev_sends: "writesOk (rev (map (Send p) evs) @ older) = writesOk older"
  by (simp add: rev_map writesOk_sends)

lemma exitedPids_classified:
  "exitedPids (map (Send p) (concat (map (classify parse) lines))) = []"
  by (rule exitedPids_sends) (auto simp: classify_no_exit)

lemma sessionInv_initial: "sessionInv initial"
  by (simp add: sessionInv_def initial_def noWriteAfterExit_def)

lemma sessionInv_spawnEmulator:
  "sessionInv s \<Longrightarrow> sessionInv (spawnEmulator e programPath debugMode s)"
  by (auto simp: sessionInv_def spawnEmulator_def emit_def noWriteAfterExit_def Let_def
        exitedPids_append list_all_iff
        split: sum.splits option.splits)

lemma sessionInv_stdout:
  "sessionInv s \<Longrightarrow> sessionInv (stdout_on_data parse p dataStr s)"
  by (auto simp: sessionInv_def stdout_on_data_def emit_def Let_def
        exitedPids_append exitedPids_classified writesOk_rev_sends list_all_iff
        noWriteAfterExit_def
        split: option.splits prod.splits)

lemma sessionInv_stderr:
  "sessionInv s \<Longrightarrow> sessionInv (stderr_on_data p errorStr s)"
  by (auto simp: sessionInv_def stderr_on_data_def emit_def Let_def
        exitedPids_append list_all_iff noWriteAfterExit_def
        split: option.splits)

lemma sessionInv_on_error:
  "sessionInv s \<Longrightarrow> sessionInv (on_error p message s)"
  by (auto simp: sessionInv_def on_error_def emit_def exitedPids_append list_all_iff
        noWriteAfterExit_def split: option.splits)

lemma sessionInv_on_exit:
  "sessionInv s \<Longrightarrow> p < length (procs s) \<Longrightarrow> sessionInv (on_exit p code s)"
  by (auto simp: sessionInv_def on_exit_def emit_def exitedPids_append list_all_iff
        noWriteAfterExit_def split: option.splits)

lemma sessionInv_command:
  "sessionInv s \<Longrightarrow> sessionInv (snd (emulator_command command s))"
  by (auto simp: sessionInv_def emulator_command_def emit_def exitedPids_append list_all_iff
        noWriteAfterExit_def set_exitedPids_rev split: option.splits)

lemma sessionInv_stop:
  "sessionInv s \<Longrightarrow> sessionInv (emulator_stop s)"
  by (auto simp: sessionInv_def emulator_stop_def emit_def exitedPids_append list_all_iff
        noWriteAfterExit_def split: option.splits)

lemma sessionInv_timeout:
  "sessionInv s \<Longrightarrow> sessionInv (stop_timeout (s\<lparr>timeouts := ts\<rparr>))"
  by (auto simp: sessionInv_def stop_timeout_def emit_def exitedPids_append list_all_iff
        noWriteAfterExit_def split: option.splits)

lemma sessionInv_step: "sessionInv s \<Longrightarrow> sessionInv (step parse e s i)"
  by (cases i)
     (simp_all add: step_def sessionInv_spawnEmulator sessionInv_stdout sessionInv_stderr
        sessionInv_on_error sessionInv_on_exit sessionInv_command sessionInv_stop
        sessionInv_timeout)

lemma sessionInv_run: "sessionInv s \<Longrightarrow> sessionInv (run parse e s inputs)"
  by (induction inputs arbitrary: s) (simp_all add: run_def sessionInv_step)

lemma step_keeps_cleared:
  "emulatorProcess s = None \<Longrightarrow> \<not> startSucceeds e i \<Longrightarrow>
   emulatorProcess (step parse e s i) = None"
  by (cases i)
     (auto simp: handler_defs startSucceeds_def Let_def
           split: sum.splits option.splits prod.splits)

lemma run_keeps_cleared:
  "emulatorProcess s = None \<Longrightarrow> \<forall>i \<in> set inputs. \<not> startSucceeds e i \<Longrightarrow>
   emulatorProcess (run parse e s inputs) = None"
proof (induction inputs arbitrary: s)
  case Nil
  then show ?case by (simp add: run_def)
next
  case (Cons i inputs)
  from Cons.prems have "emulatorProcess (step parse e s i) = None"
    by (simp add: step_keeps_cleared)
  with Cons show ?case by (simp add: run_def)
qed

text \<open>
  C9. The exit listener and the error listener of a process clear the process handle.
  While the handle is cleared, every input other than a start request that reaches
  \<open>spawn\<close> leaves it cleared, and a command is refused as not running, with nothing
  written. In every run from the initial state, no command is written to a process
  after that process's exit event has been sent.
\<close>

theorem no_command_after_exit:
  "(p < length (procs s) \<longrightarrow>
      emulatorProcess (step parse e s (ProcExit p code)) = None \<and>
      emulatorProcess (step parse e s (ProcError p message)) = None \<and>
      log (step parse e s (ProcExit p code)) =
        log s @ [Send p (Exit (case code of None \<Rightarrow> 0 | Some n \<Rightarrow> n))]) \<and>
   (emulatorProcess s = None \<and> (\<forall>i \<in> set inputs. \<not> startSucceeds e i) \<longrightarrow>
      emulatorProcess (run parse e s inputs) = None \<and>
      emulator_command command (run parse e s inputs) =
        (Inl NotRunning, run parse e s inputs)) \<and>
   noWriteAfterExit (log (run parse e initial inputs))"
proof (intro conjI impI)
  assume "p < length (procs s)"
  then show "emulatorProcess (step parse e s (ProcExit p code)) = None"
    and "emulatorProcess (step parse e s (ProcError p message)) = None"
    and "log (step parse e s (ProcExit p code)) =
        log s @ [Send p (Exit (case code of None \<Rightarrow> 0 | Some n \<Rightarrow> n))]"
    by (simp_all add: step_def on_exit_def on_error_def emit_def)
next
  assume a: "emulatorProcess s = None \<and> (\<forall>i \<in> set inputs. \<not> startSucceeds e i)"
  then show b: "emulatorProcess (run parse e s inputs) = None"
    by (simp add: run_keeps_cleared)
  then show "emulator_command command (run parse e s inputs) =
        (Inl NotRunning, run parse e s inputs)"
    by (simp add: emulator_command_def)
next
  have "sessionInv (run parse e initial inputs)"
    by (rule sessionInv_run) (rule sessionInv_initial)
  then show "noWriteAfterExit (log (run parse e initial inputs))"
    by (simp add: sessionInv_def)
qed


lemma noWriteAfterExit_rejects:
  "\<not> noWriteAfterExit [Send 0 (Exit 0), StdinWrite 0 (js ''step'' @ [LF])]"
  by (simp add: noWriteAfterExit_def)

theorem no_command_after_exit_witness:
  "emulatorProcess (step parse_empty_object (linux_dev True)
      (spawnEmulator (linux_dev True) (js ''prog.ias'') False initial) (ProcExit 0 (Some 1))) = None \<and>
   log (step parse_empty_object (linux_dev True)
      (spawnEmulator (linux_dev True) (js ''prog.ias'') False initial) (ProcExit 0 (Some 1))) =
     [Spawn 0 [js ''app'', js ''bin'', js ''linux'', js ''emulator.out''] [js ''prog.ias''],
      Send 0 (Exit 1)] \<and>
   fst (emulator_command (js ''step'')
      (run parse_empty_object (linux_dev False) initial
         [Start (js ''prog.ias'') False, Stop, TimeoutFires])) = Inl NotRunning \<and>
   noWriteAfterExit (log (run parse_empty_object (linux_dev True) initial
      [Start (js ''prog.ias'') False, Command (js ''step''), ProcExit 0 None,
       Command (js ''step'')]))"
proof -
  let ?s = "spawnEmulator (linux_dev True) (js ''prog.ias'') False initial"
  let ?inputs = "[Start (js ''prog.ias'') False, Stop, TimeoutFires]"
  have a: "0 < length (procs ?s)" by (simp add: started)
  have l: "log ?s = [Spawn 0 [js ''app'', js ''bin'', js ''linux'', js ''emulator.out''] [js ''prog.ias'']]"
    by (simp add: started)
  have b: "emulatorProcess initial = None \<and>
           (\<forall>i \<in> set ?inputs. \<not> startSucceeds (linux_dev False) i)"
    by (simp add: initial_def startSucceeds_def getEmulatorPath_linux_missing)
  from no_command_after_exit [where p = 0 and s = ?s and parse = parse_empty_object
      and e = "linux_dev True" and code = "Some 1"] a l
  have 1: "emulatorProcess (step parse_empty_object (linux_dev True) ?s (ProcExit 0 (Some 1))) = None"
    and 2: "log (step parse_empty_object (linux_dev True) ?s (ProcExit 0 (Some 1))) =
     [Spawn 0 [js ''app'', js ''bin'', js ''linux'', js ''emulator.out''] [js ''prog.ias''],
      Send 0 (Exit 1)]"
    by simp_all
  from no_command_after_exit [where s = initial and parse = parse_empty_object
      and e = "linux_dev False" and inputs = ?inputs and command = "js ''step''"] b
  have 3: "fst (emulator_command (js ''step'')
      (run parse_empty_object (linux_dev False) initial ?inputs)) = Inl NotRunning"
    by simp
  from no_command_after_exit [where parse = parse_empty_object and e = "linux_dev True"
      and inputs = "[Start (js ''prog.ias'') False, Command (js ''step''), ProcExit 0 None,
       Command (js ''step'')]"]
  have 4: "noWriteAfterExit (log (run parse_empty_object (linux_dev True) initial
      [Start (js ''prog.ias'') False, Command (js ''step''), ProcExit 0 None,
       Command (js ''step'')]))"
    by blast
  from 1 2 3 4 show ?thesis by blast
qed

section \<open>The output limit\<close>

lemma overflow_step:
  assumes "p < length (procs s)"
    and "MAX_TOTAL_OUTPUT < totalOutput (procs s ! p) + length dataStr"
  shows "log (stdout_on_data parse p dataStr s) =
           log s @ newEffects s (stdout_on_data parse p dataStr s)"
    and "list_all (\<lambda>x. \<not> isOutputOrMessage x) (newEffects s (stdout_on_data parse p dataStr s))"
    and "buffer (procs (stdout_on_data parse p dataStr s) ! p) = buffer (procs s ! p)"
    and "timeouts (stdout_on_data parse p dataStr s) = timeouts s"
    and "exitedPids (log (stdout_on_data parse p dataStr s)) = exitedPids (log s)"
    and "p < length (procs (stdout_on_data parse p dataStr s))"
    and "MAX_TOTAL_OUTPUT < totalOutput (procs (stdout_on_data parse p dataStr s) ! p)"
    and "emulatorProcess s = Some p \<Longrightarrow>
           log (stdout_on_data parse p dataStr s) =
             log s @ [Kill p SIGTERM, Send p (Error overflow_message)]"
  using assms
  by (cases "emulatorProcess s";
      simp add: stdout_on_data_def Let_def emit_def newEffects_def exitedPids_append)+

lemma step_exit_count:
  "p < length (procs s) \<Longrightarrow>
   count_list (exitedPids (log (step parse e s i))) p =
     count_list (exitedPids (log s)) p + (if isExitOf p i then 1 else 0)"
  by (cases i)
     (auto simp: handler_defs Let_def exitedPids_append exitedPids_classified
           split: sum.splits option.splits prod.splits)

lemma run_exit_count:
  "p < length (procs s) \<Longrightarrow>
   count_list (exitedPids (log (run parse e s inputs))) p =
     count_list (exitedPids (log s)) p + length (filter (isExitOf p) inputs)"
proof (induction inputs arbitrary: s)
  case Nil
  show ?case by (simp add: run_def)
next
  case (Cons i inputs)
  have a: "p < length (procs (step parse e s i))"
    using Cons.prems step_procs_mono [of s parse e i] by simp
  have "run parse e s (i # inputs) = run parse e (step parse e s i) inputs"
    by (simp add: run_def)
  with Cons.IH [OF a] step_exit_count [OF Cons.prems, of parse e i]
  show ?case by simp
qed

lemma step_overflow_buffer:
  "p < length (procs s) \<Longrightarrow> MAX_TOTAL_OUTPUT < totalOutput (procs s ! p) \<Longrightarrow>
   buffer (procs (step parse e s i) ! p) = buffer (procs s ! p)"
  by (cases i)
     (auto simp: handler_defs Let_def nth_append nth_list_update
           split: sum.splits option.splits prod.splits)

lemma run_overflow_buffer:
  "p < length (procs s) \<Longrightarrow> MAX_TOTAL_OUTPUT < totalOutput (procs s ! p) \<Longrightarrow>
   buffer (procs (run parse e s inputs) ! p) = buffer (procs s ! p)"
proof (induction inputs arbitrary: s)
  case Nil
  show ?case by (simp add: run_def)
next
  case (Cons i inputs)
  have a: "p < length (procs (step parse e s i))"
    using Cons.prems(1) step_procs_mono [of s parse e i] by simp
  have b: "MAX_TOTAL_OUTPUT < totalOutput (procs (step parse e s i) ! p)"
    using Cons.prems step_totalOutput_mono [of p s parse e i] by simp
  from Cons.IH [OF a b] step_overflow_buffer [OF Cons.prems, of parse e i]
  show ?case by (simp add: run_def)
qed

text \<open>
  C1, as the code has it. Take a chunk of process \<open>p\<close> that brings its cumulative
  length above 65536. Whatever the process handle holds, the chunk only adds to the log,
  no output or message event is among what it adds, the pending buffer is left as it was
  and no timeout is scheduled. When the handle names \<open>p\<close>, what it adds is exactly the
  kill of \<open>p\<close>, issued first, and one overflow error. After any further inputs the same
  holds for every later chunk of \<open>p\<close>: while the handle names \<open>p\<close> it is killed again
  and one more overflow error is sent, so there is one error for each chunk over the
  limit; no output or message event comes from a later chunk and the pending buffer
  still is what it was before the limit was crossed. The exit events of \<open>p\<close> in the log
  are exactly those present before plus one for each exit of \<open>p\<close> among the inputs.
\<close>

theorem stdout_overflow:
  assumes "p < length (procs s)"
    and "MAX_TOTAL_OUTPUT < totalOutput (procs s ! p) + length dataStr"
  shows
    "(emulatorProcess s = Some p \<longrightarrow>
        log (stdout_on_data parse p dataStr s) =
          log s @ [Kill p SIGTERM, Send p (Error overflow_message)]) \<and>
     log (stdout_on_data parse p dataStr s) =
       log s @ newEffects s (stdout_on_data parse p dataStr s) \<and>
     list_all (\<lambda>x. \<not> isOutputOrMessage x)
       (newEffects s (stdout_on_data parse p dataStr s)) \<and>
     buffer (procs (stdout_on_data parse p dataStr s) ! p) = buffer (procs s ! p) \<and>
     timeouts (stdout_on_data parse p dataStr s) = timeouts s \<and>
     (emulatorProcess (run parse e (stdout_on_data parse p dataStr s) inputs) = Some p \<longrightarrow>
        log (step parse e (run parse e (stdout_on_data parse p dataStr s) inputs)
               (StdoutData p chunk)) =
          log (run parse e (stdout_on_data parse p dataStr s) inputs) @
            [Kill p SIGTERM, Send p (Error overflow_message)]) \<and>
     list_all (\<lambda>x. \<not> isOutputOrMessage x)
       (newEffects (run parse e (stdout_on_data parse p dataStr s) inputs)
          (step parse e (run parse e (stdout_on_data parse p dataStr s) inputs)
             (StdoutData p chunk))) \<and>
     buffer (procs (step parse e (run parse e (stdout_on_data parse p dataStr s) inputs)
                      (StdoutData p chunk)) ! p) =
       buffer (procs s ! p) \<and>
     count_list (exitedPids (log (run parse e (stdout_on_data parse p dataStr s) inputs))) p =
       count_list (exitedPids (log s)) p + length (filter (isExitOf p) inputs)"
proof -
  let ?s1 = "stdout_on_data parse p dataStr s"
  let ?s2 = "run parse e ?s1 inputs"
  note first = overflow_step [OF assms, of parse]
  have later: "p < length (procs ?s2)" "MAX_TOTAL_OUTPUT < totalOutput (procs ?s2 ! p)"
    using run_overflow_persists [OF first(6) first(7), of parse e inputs] by simp_all
  then have over: "MAX_TOTAL_OUTPUT < totalOutput (procs ?s2 ! p) + length chunk" by simp
  note second = overflow_step [OF later(1) over, of parse]
  have st: "step parse e ?s2 (StdoutData p chunk) = stdout_on_data parse p chunk ?s2"
    using later(1) by (simp add: step_def)
  have keep: "buffer (procs ?s2 ! p) = buffer (procs ?s1 ! p)"
    using first(6) first(7) by (rule run_overflow_buffer)
  have cnt: "count_list (exitedPids (log ?s2)) p =
      count_list (exitedPids (log s)) p + length (filter (isExitOf p) inputs)"
    using run_exit_count [OF first(6), of parse e inputs] by (simp add: first(5))
  show ?thesis
    using first(1-4) first(8) second(2) second(3) second(8) keep cnt
    by (simp add: st)
qed

theorem stdout_overflow_witness:
  "log (stdout_on_data parse_empty_object 0 (replicate 65537 0x41)
          (spawnEmulator (linux_dev True) (js ''prog.ias'') False initial)) =
     [Spawn 0 [js ''app'', js ''bin'', js ''linux'', js ''emulator.out''] [js ''prog.ias''],
      Kill 0 SIGTERM, Send 0 (Error overflow_message)] \<and>
   list_all (\<lambda>x. \<not> isOutputOrMessage x)
     (newEffects
        (run parse_empty_object (linux_dev True)
           (stdout_on_data parse_empty_object 0 (replicate 65537 0x41)
              (spawnEmulator (linux_dev True) (js ''prog.ias'') False initial))
           [Stop, ProcExit 0 None])
        (step parse_empty_object (linux_dev True)
           (run parse_empty_object (linux_dev True)
              (stdout_on_data parse_empty_object 0 (replicate 65537 0x41)
                 (spawnEmulator (linux_dev True) (js ''prog.ias'') False initial))
              [Stop, ProcExit 0 None])
           (StdoutData 0 (js ''late'' @ [LF])))) \<and>
   count_list (exitedPids (log
     (run parse_empty_object (linux_dev True)
        (stdout_on_data parse_empty_object 0 (replicate 65537 0x41)
           (spawnEmulator (linux_dev True) (js ''prog.ias'') False initial))
        [Stop, ProcExit 0 None]))) 0 = 1"
proof -
  let ?s = "spawnEmulator (linux_dev True) (js ''prog.ias'') False initial"
  have a: "0 < length (procs ?s)" by (simp add: started)
  have b: "emulatorProcess ?s = Some 0" by (simp add: started)
  have c: "MAX_TOTAL_OUTPUT < totalOutput (procs ?s ! 0) + length (replicate 65537 (0x41 :: jschar))"
    by (simp add: started MAX_TOTAL_OUTPUT_def)
  have d: "log ?s = [Spawn 0 [js ''app'', js ''bin'', js ''linux'', js ''emulator.out''] [js ''prog.ias'']]"
    by (simp add: started)
  from stdout_overflow [OF a c, of parse_empty_object "linux_dev True" "[Stop, ProcExit 0 None]"
      "js ''late'' @ [LF]"] b d
  show ?thesis by simp
qed

text \<open>
  C1 as stated fails: when a second chunk arrives after the one that crossed the limit,
  a second overflow error is sent, so the session has two overflow errors before its one
  exit event. The signal of both kills is \<open>SIGTERM\<close>, the default of \<open>kill()\<close> and the
  signal the stop handler sends as its graceful request; \<open>SIGKILL\<close> is not sent.
\<close>

theorem overflow_error_repeats:
  "log (run parse_empty_object (linux_dev True) initial
          [Start (js ''prog.ias'') False,
           StdoutData 0 (replicate 65537 0x41),
           StdoutData 0 (js ''A''),
           ProcExit 0 None]) =
     [Spawn 0 [js ''app'', js ''bin'', js ''linux'', js ''emulator.out''] [js ''prog.ias''],
      Kill 0 SIGTERM, Send 0 (Error overflow_message),
      Kill 0 SIGTERM, Send 0 (Error overflow_message),
      Send 0 (Exit 0)] \<and>
   count_list
     (log (run parse_empty_object (linux_dev True) initial
          [Start (js ''prog.ias'') False,
           StdoutData 0 (replicate 65537 0x41),
           StdoutData 0 (js ''A''),
           ProcExit 0 None]))
     (Send 0 (Error overflow_message)) = 2 \<and>
   Kill 0 SIGKILL \<notin> set
     (log (run parse_empty_object (linux_dev True) initial
          [Start (js ''prog.ias'') False,
           StdoutData 0 (replicate 65537 0x41),
           StdoutData 0 (js ''A''),
           ProcExit 0 None]))"
proof -
  have l: "log (run parse_empty_object (linux_dev True) initial
          [Start (js ''prog.ias'') False,
           StdoutData 0 (replicate 65537 0x41),
           StdoutData 0 (js ''A''),
           ProcExit 0 None]) =
     [Spawn 0 [js ''app'', js ''bin'', js ''linux'', js ''emulator.out''] [js ''prog.ias''],
      Kill 0 SIGTERM, Send 0 (Error overflow_message),
      Kill 0 SIGTERM, Send 0 (Error overflow_message),
      Send 0 (Exit 0)]"
    by (simp add: run_def step_def started stdout_on_data_def on_exit_def emit_def
          MAX_TOTAL_OUTPUT_def Let_def js_def)
  show ?thesis by (simp add: l)
qed

end
